theory Spec2Isabelle
  imports Complex_Main "HOL-Library.Sublist"
begin

section \<open>The utilities of \<^verbatim>\<open>src/lib/utils/index.ts\<close>\<close>

text \<open>
  The file exports three functions with logic of their own: \<^verbatim>\<open>formatTime\<close>,
  \<^verbatim>\<open>isElementVisible\<close> and \<^verbatim>\<open>clickOutside\<close>. Each is embedded below together with the part
  of the platform it calls (numbers, \<^verbatim>\<open>Date\<close>, strings, the DOM tree and the click listeners
  of \<^verbatim>\<open>document.body\<close>).
\<close>

subsection \<open>Numbers and strings of the platform\<close>

text \<open>
  A JavaScript \<^verbatim>\<open>number\<close> is \<^verbatim>\<open>NaN\<close>, one of the two infinities, or a finite value. Finite
  values are kept as rationals and the product \<^verbatim>\<open>seconds * 1000\<close> is taken exactly. On
  doubles the product is rounded to the nearest double; for an integral number of seconds
  (every concrete input used below) the product is exact whenever its magnitude stays below
  \<open>2 ^ 53\<close>, which covers every valid time value. For a number of seconds with a fraction
  the rounding of the product is not modelled.
\<close>

datatype number = NaN | PosInfinity | NegInfinity | Finite rat

datatype error = RangeError

fun isNaN :: "number \<Rightarrow> bool" where
  "isNaN NaN = True"
| "isNaN _ = False"

text \<open>The operator \<^verbatim>\<open>>=\<close> on numbers: false as soon as one side is \<^verbatim>\<open>NaN\<close>.\<close>

fun num_ge :: "number \<Rightarrow> number \<Rightarrow> bool" where
  "num_ge NaN _ = False"
| "num_ge _ NaN = False"
| "num_ge PosInfinity _ = True"
| "num_ge _ NegInfinity = True"
| "num_ge NegInfinity _ = False"
| "num_ge _ PosInfinity = False"
| "num_ge (Finite a) (Finite b) = (b \<le> a)"

text \<open>The operator \<^verbatim>\<open>*\<close> on numbers (infinity times zero is \<^verbatim>\<open>NaN\<close>).\<close>

fun num_sign :: "number \<Rightarrow> int" where
  "num_sign NaN = 0"
| "num_sign PosInfinity = 1"
| "num_sign NegInfinity = - 1"
| "num_sign (Finite a) = (if a < 0 then - 1 else if a = 0 then 0 else 1)"

fun num_times :: "number \<Rightarrow> number \<Rightarrow> number" where
  "num_times NaN _ = NaN"
| "num_times _ NaN = NaN"
| "num_times (Finite a) (Finite b) = Finite (a * b)"
| "num_times x y =
     (if num_sign x * num_sign y = 0 then NaN
      else if num_sign x * num_sign y < 0 then NegInfinity else PosInfinity)"

text \<open>Decimal digits of a non-negative integer, and \<^verbatim>\<open>padStart\<close> with zeros.\<close>

definition digit_char :: "nat \<Rightarrow> char" where
  "digit_char d = ''0123456789'' ! d"

fun digits :: "nat \<Rightarrow> string" where
  "digits n = (if n < 10 then [digit_char n] else digits (n div 10) @ [digit_char (n mod 10)])"

declare digits.simps [simp del]

definition padStart :: "nat \<Rightarrow> string \<Rightarrow> string" where
  "padStart w s = replicate (w - length s) (CHR ''0'') @ s"

definition pad :: "nat \<Rightarrow> int \<Rightarrow> string" where
  "pad w n = padStart w (digits (nat n))"

text \<open>
  \<^verbatim>\<open>String.prototype.substring(start, end)\<close> for non-negative arguments: both are clamped
  to the length of the string and swapped when \<open>start > end\<close>.
\<close>

definition substring :: "nat \<Rightarrow> nat \<Rightarrow> string \<Rightarrow> string" where
  "substring a b s = take (max a b - min a b) (drop (min a b) s)"

subsection \<open>Dates of the platform (ECMA-262, Date objects)\<close>

text \<open>
  A time value is a whole number of milliseconds since the epoch; the time value of an
  invalid date is \<^verbatim>\<open>NaN\<close>, here \<open>None\<close>. The functions below are those of the language
  standard, with its names.
\<close>

definition msPerDay :: int where
  "msPerDay = 86400000"

definition Day :: "int \<Rightarrow> int" where
  "Day t = t div msPerDay"

definition DaysInYear :: "int \<Rightarrow> int" where
  "DaysInYear y =
     (if y mod 4 \<noteq> 0 then 365
      else if y mod 100 \<noteq> 0 then 366
      else if y mod 400 \<noteq> 0 then 365
      else 366)"

definition DayFromYear :: "int \<Rightarrow> int" where
  "DayFromYear y =
     365 * (y - 1970) + (y - 1969) div 4 - (y - 1901) div 100 + (y - 1601) div 400"

text \<open>
  \<^verbatim>\<open>YearFromTime(t)\<close> is the largest year \<open>y\<close> whose first day is not after the day of
  \<open>t\<close>. It is found by counting up from a year that is not after it.
\<close>

function year_search :: "int \<Rightarrow> int \<Rightarrow> int" where
  "year_search d y = (if DayFromYear (y + 1) \<le> d then year_search d (y + 1) else y)"
  by pat_completeness auto
termination
proof (relation "measure (\<lambda>(d, y). nat (d + 1 - DayFromYear (y + 1)))")
  show "wf (measure (\<lambda>(d, y). nat (d + 1 - DayFromYear (y + 1))))"
    by simp
next
  fix d y :: int
  assume le: "DayFromYear (y + 1) \<le> d"
  have a: "(y - 1968) div 4 \<le> (y - 1967) div 4"
    by (rule zdiv_mono1) simp_all
  have "(y - 1899) div 100 \<le> (y - 1900 + 100) div 100"
    by (rule zdiv_mono1) simp_all
  then have b: "(y - 1899) div 100 \<le> (y - 1900) div 100 + 1"
    by simp
  have c: "(y - 1600) div 400 \<le> (y - 1599) div 400"
    by (rule zdiv_mono1) simp_all
  have "DayFromYear (y + 1) < DayFromYear (y + 1 + 1)"
    using a b c by (simp add: DayFromYear_def)
  then show "((d, y + 1), (d, y)) \<in> measure (\<lambda>(d, y). nat (d + 1 - DayFromYear (y + 1)))"
    using le by simp
qed

declare year_search.simps [simp del]

definition YearFromTime :: "int \<Rightarrow> int" where
  "YearFromTime t =
     (let d = Day t
      in year_search d (1970 + (if 0 \<le> d then d div 366 else d div 365)))"

definition InLeapYear :: "int \<Rightarrow> int" where
  "InLeapYear t = (if DaysInYear (YearFromTime t) = 366 then 1 else 0)"

definition DayWithinYear :: "int \<Rightarrow> int" where
  "DayWithinYear t = Day t - DayFromYear (YearFromTime t)"

definition MonthFromTime :: "int \<Rightarrow> int" where
  "MonthFromTime t =
     (let d = DayWithinYear t; l = InLeapYear t
      in if d < 31 then 0
         else if d < 59 + l then 1
         else if d < 90 + l then 2
         else if d < 120 + l then 3
         else if d < 151 + l then 4
         else if d < 181 + l then 5
         else if d < 212 + l then 6
         else if d < 243 + l then 7
         else if d < 273 + l then 8
         else if d < 304 + l then 9
         else if d < 334 + l then 10
         else 11)"

definition DateFromTime :: "int \<Rightarrow> int" where
  "DateFromTime t =
     (let d = DayWithinYear t; l = InLeapYear t; m = MonthFromTime t
      in if m = 0 then d + 1
         else if m = 1 then d - 30
         else if m = 2 then d - 58 - l
         else if m = 3 then d - 89 - l
         else if m = 4 then d - 119 - l
         else if m = 5 then d - 150 - l
         else if m = 6 then d - 180 - l
         else if m = 7 then d - 211 - l
         else if m = 8 then d - 242 - l
         else if m = 9 then d - 272 - l
         else if m = 10 then d - 303 - l
         else d - 333 - l)"

definition HourFromTime :: "int \<Rightarrow> int" where
  "HourFromTime t = (t div 3600000) mod 24"

definition MinFromTime :: "int \<Rightarrow> int" where
  "MinFromTime t = (t div 60000) mod 60"

definition SecFromTime :: "int \<Rightarrow> int" where
  "SecFromTime t = (t div 1000) mod 60"

definition msFromTime :: "int \<Rightarrow> int" where
  "msFromTime t = t mod 1000"

text \<open>
  \<^verbatim>\<open>new Date(value)\<close> clips the number: a value that is not finite or whose magnitude
  exceeds \<open>8.64e15\<close> gives an invalid date, any other value is truncated towards zero.
\<close>

definition truncate_rat :: "rat \<Rightarrow> int" where
  "truncate_rat r = (if 0 \<le> r then \<lfloor>r\<rfloor> else \<lceil>r\<rceil>)"

fun TimeClip :: "number \<Rightarrow> int option" where
  "TimeClip (Finite r) = (if 8640000000000000 < \<bar>r\<bar> then None else Some (truncate_rat r))"
| "TimeClip _ = None"

definition newDate :: "number \<Rightarrow> int option" where
  "newDate v = TimeClip v"

text \<open>
  \<^verbatim>\<open>Date.prototype.toISOString\<close> throws a \<^verbatim>\<open>RangeError\<close> on an invalid date. A year
  from 0 to 9999 is written with four digits, any other year with a sign and six digits.
\<close>

definition year_string :: "int \<Rightarrow> string" where
  "year_string y =
     (if 0 \<le> y \<and> y \<le> 9999 then pad 4 y
      else (if y < 0 then ''-'' else ''+'') @ pad 6 \<bar>y\<bar>)"

definition iso_string :: "int \<Rightarrow> string" where
  "iso_string t =
     year_string (YearFromTime t) @ ''-'' @ pad 2 (MonthFromTime t + 1) @ ''-''
       @ pad 2 (DateFromTime t) @ ''T'' @ pad 2 (HourFromTime t) @ '':''
       @ pad 2 (MinFromTime t) @ '':'' @ pad 2 (SecFromTime t) @ ''.''
       @ pad 3 (msFromTime t) @ ''Z''"

definition toISOString :: "int option \<Rightarrow> error + string" where
  "toISOString d = (case d of None \<Rightarrow> Inl RangeError | Some t \<Rightarrow> Inr (iso_string t))"

subsection \<open>formatTime\<close>

text \<open>
  \<^verbatim>\<open>
  export function formatTime(seconds: number) {
    if (isNaN(seconds)) { return '--:--'; }
    if (seconds >= 60 * 60) {
      return new Date(seconds * 1000).toISOString().substring(11, 16);
    } else {
      return new Date(seconds * 1000).toISOString().substring(14, 19);
    }
  }
  \<close>
  An exception that leaves the function is the left summand of the result.
\<close>

definition formatTime :: "number \<Rightarrow> error + string" where
  "formatTime seconds =
     (if isNaN seconds then Inr ''--:--''
      else if num_ge seconds (Finite (60 * 60)) then
        (case toISOString (newDate (num_times seconds (Finite 1000))) of
           Inl e \<Rightarrow> Inl e
         | Inr s \<Rightarrow> Inr (substring 11 16 s))
      else
        (case toISOString (newDate (num_times seconds (Finite 1000))) of
           Inl e \<Rightarrow> Inl e
         | Inr s \<Rightarrow> Inr (substring 14 19 s)))"

text \<open>
  The shape the specification gives to the result: two fields, each written with two decimal
  digits, separated by a colon. The date part of an ISO string (everything before the hour)
  is named for the proofs.
\<close>

definition two_digits :: "nat \<Rightarrow> string" where
  "two_digits n = [digit_char (n div 10), digit_char (n mod 10)]"

definition clock :: "int \<Rightarrow> int \<Rightarrow> string" where
  "clock a b = two_digits (nat a) @ '':'' @ two_digits (nat b)"

definition date_part :: "int \<Rightarrow> string" where
  "date_part t =
     year_string (YearFromTime t) @ ''-'' @ pad 2 (MonthFromTime t + 1) @ ''-''
       @ pad 2 (DateFromTime t) @ ''T''"

subsection \<open>Nodes of the DOM\<close>

text \<open>
  A node is identified by the tree it belongs to (tree 0 is the document, any other tree is
  a detached fragment) and by its path from the root of that tree, a list of child indices.
  \<^verbatim>\<open>a.contains(b)\<close> holds when \<open>b\<close> is an inclusive descendant of \<open>a\<close>: both are in the
  same tree and the path of \<open>a\<close> is a prefix of the path of \<open>b\<close>.
\<close>

datatype node = Node (root: nat) (path: "nat list")

definition contains :: "node \<Rightarrow> node \<Rightarrow> bool" where
  "contains a b = (root a = root b \<and> prefix (path a) (path b))"

subsection \<open>isElementVisible\<close>

text \<open>
  What the function reads of an element and of the window: \<^verbatim>\<open>element.offsetParent\<close> (a node
  or \<^verbatim>\<open>null\<close>), the rectangle of \<^verbatim>\<open>element.getBoundingClientRect()\<close>, three properties of
  \<^verbatim>\<open>window.getComputedStyle(element)\<close>, the inner size of the window and the client size of
  \<^verbatim>\<open>document.documentElement\<close>. The coordinates of the rectangle are finite numbers, the four
  sizes are integers. The field \<^verbatim>\<open>top\<close> of the rectangle is named \<open>top_edge\<close>.
\<close>

record DOMRect =
  top_edge :: rat
  left :: rat
  bottom :: rat
  right :: rat
  width :: rat
  height :: rat

record CSSStyleDeclaration =
  display :: string
  visibility :: string
  opacity :: string

record HTMLElement =
  offsetParent :: "node option"
  getBoundingClientRect :: DOMRect
  getComputedStyle :: CSSStyleDeclaration

record Window =
  innerHeight :: int
  innerWidth :: int
  clientHeight :: int
  clientWidth :: int

text \<open>The operator \<^verbatim>\<open>||\<close> on integers: the left operand unless it is zero.\<close>

definition js_or :: "int \<Rightarrow> int \<Rightarrow> int" where
  "js_or a b = (if a \<noteq> 0 then a else b)"

text \<open>
  \<^verbatim>\<open>
  export function isElementVisible(element: HTMLElement) {
    if (!element) { return false; }
    const rect = element.getBoundingClientRect();
    const style = window.getComputedStyle(element);
    const isInDOM = element.offsetParent !== null;
    const hasSize = rect.width > 0 && rect.height > 0;
    const isDisplayed = style.display !== 'none';
    const isVisible = style.visibility !== 'hidden' && style.opacity !== '0';
    const isInViewport =
      rect.top >= 0 && rect.left >= 0 &&
      rect.bottom <= (window.innerHeight || document.documentElement.clientHeight) &&
      rect.right <= (window.innerWidth || document.documentElement.clientWidth);
    return isInDOM && hasSize && isDisplayed && isVisible && isInViewport;
  }
  \<close>
  A missing element (\<^verbatim>\<open>null\<close> or \<^verbatim>\<open>undefined\<close>) is \<open>None\<close>.
\<close>

definition isElementVisible :: "Window \<Rightarrow> HTMLElement option \<Rightarrow> bool" where
  "isElementVisible window element =
     (case element of
        None \<Rightarrow> False
      | Some e \<Rightarrow>
          (let rect = getBoundingClientRect e;
               style = getComputedStyle e;
               isInDOM = (offsetParent e \<noteq> None);
               hasSize = (width rect > 0 \<and> height rect > 0);
               isDisplayed = (display style \<noteq> ''none'');
               isVisible = (visibility style \<noteq> ''hidden'' \<and> opacity style \<noteq> ''0'');
               isInViewport =
                 (top_edge rect \<ge> 0 \<and>
                  left rect \<ge> 0 \<and>
                  bottom rect \<le> of_int (js_or (innerHeight window) (clientHeight window)) \<and>
                  right rect \<le> of_int (js_or (innerWidth window) (clientWidth window)))
           in isInDOM \<and> hasSize \<and> isDisplayed \<and> isVisible \<and> isInViewport))"

text \<open>
  The five predicates in the words of the specification, and the size of the viewport: the
  inner size of the window, or the client size of the document element when the inner size
  is zero. An element sticks out of the viewport when one of its edges lies outside.
\<close>

definition viewportHeight :: "Window \<Rightarrow> rat" where
  "viewportHeight win = of_int (if innerHeight win = 0 then clientHeight win else innerHeight win)"

definition viewportWidth :: "Window \<Rightarrow> rat" where
  "viewportWidth win = of_int (if innerWidth win = 0 then clientWidth win else innerWidth win)"

definition in_document_flow :: "HTMLElement \<Rightarrow> bool" where
  "in_document_flow e = (offsetParent e \<noteq> None)"

definition has_size :: "HTMLElement \<Rightarrow> bool" where
  "has_size e = (0 < width (getBoundingClientRect e) \<and> 0 < height (getBoundingClientRect e))"

definition is_displayed :: "HTMLElement \<Rightarrow> bool" where
  "is_displayed e = (display (getComputedStyle e) \<noteq> ''none'')"

definition is_visible_style :: "HTMLElement \<Rightarrow> bool" where
  "is_visible_style e =
     (visibility (getComputedStyle e) \<noteq> ''hidden'' \<and> opacity (getComputedStyle e) \<noteq> ''0'')"

definition in_viewport :: "Window \<Rightarrow> HTMLElement \<Rightarrow> bool" where
  "in_viewport win e =
     (0 \<le> top_edge (getBoundingClientRect e) \<and> 0 \<le> left (getBoundingClientRect e) \<and>
      bottom (getBoundingClientRect e) \<le> viewportHeight win \<and>
      right (getBoundingClientRect e) \<le> viewportWidth win)"

definition sticks_out :: "Window \<Rightarrow> HTMLElement \<Rightarrow> bool" where
  "sticks_out win e =
     (top_edge (getBoundingClientRect e) < 0 \<or> left (getBoundingClientRect e) < 0 \<or>
      viewportHeight win < bottom (getBoundingClientRect e) \<or>
      viewportWidth win < right (getBoundingClientRect e))"

text \<open>
  A window of 800 by 600 and an element of 100 by 50 at a given distance from the top of the
  viewport and with a given computed opacity, for the examples.
\<close>

definition window0 :: Window where
  "window0 = \<lparr>innerHeight = 600, innerWidth = 800, clientHeight = 600, clientWidth = 800\<rparr>"

definition element0 :: "rat \<Rightarrow> string \<Rightarrow> HTMLElement" where
  "element0 t op =
     \<lparr>offsetParent = Some (Node 0 [0, 1]),
      getBoundingClientRect =
        \<lparr>top_edge = t, left = 20, bottom = t + 50, right = 120, width = 100, height = 50\<rparr>,
      getComputedStyle = \<lparr>display = ''block'', visibility = ''visible'', opacity = op\<rparr>\<rparr>"

subsection \<open>clickOutside\<close>

text \<open>
  \<^verbatim>\<open>
  export function clickOutside(element: Element, callbackFunction: () => void) {
    function onClick(event: MouseEvent) {
      if (!element.contains(event.target as Node)) { callbackFunction(); }
    }
    document.body.addEventListener('click', onClick);
    return {
      update(newCallbackFunction: () => void) { callbackFunction = newCallbackFunction; },
      destroy() { document.body.removeEventListener('click', onClick); }
    };
  }
  \<close>
  Each call creates a closure that holds the two variables \<^verbatim>\<open>element\<close> and
  \<^verbatim>\<open>callbackFunction\<close>; the function \<^verbatim>\<open>onClick\<close> and the two methods of the returned object
  share it. Closures are kept in a list and named by their index, so the index stands for
  the function \<^verbatim>\<open>onClick\<close> of that call and for the returned object. A callback is an opaque
  function, named by a number; calling it is recorded, together with the closure that called
  it, in the list \<open>calls\<close>. A callback does not itself change the listeners or the closures.
\<close>

type_synonym callback = nat

record closure =
  element :: node
  callbackFunction :: callback

text \<open>
  A click event: its target, whether it bubbles (a click of the user does; a script can
  dispatch one that does not), and whether its propagation is stopped before the listeners
  of \<^verbatim>\<open>document.body\<close> run, that is whether a listener that runs earlier (in the capture
  phase, on the target, or on a node between the target and the body) calls
  \<^verbatim>\<open>stopPropagation\<close>. Such listeners belong to the rest of the page, so what they do is
  part of the event here.
\<close>

record MouseEvent =
  target :: node
  bubbles :: bool
  propagation_stopped :: bool

text \<open>
  The state: the node \<^verbatim>\<open>document.body\<close>, the click listeners registered on it in the order
  of registration, the closures created so far, and the calls made so far.
\<close>

record world =
  body :: node
  listeners :: "nat list"
  closures :: "closure list"
  calls :: "(nat \<times> callback) list"

text \<open>
  \<^verbatim>\<open>addEventListener\<close> does not register the same function twice, and
  \<^verbatim>\<open>removeEventListener\<close> removes the function when it is registered and does nothing
  otherwise. Neither throws.
\<close>

definition addEventListener :: "nat \<Rightarrow> nat list \<Rightarrow> nat list" where
  "addEventListener k ls = (if k \<in> set ls then ls else ls @ [k])"

definition removeEventListener :: "nat \<Rightarrow> nat list \<Rightarrow> nat list" where
  "removeEventListener k ls = remove1 k ls"

definition onClick :: "nat \<Rightarrow> MouseEvent \<Rightarrow> world \<Rightarrow> world" where
  "onClick k event w =
     (if k < length (closures w) \<and> \<not> contains (element (closures w ! k)) (target event)
      then w\<lparr>calls := calls w @ [(k, callbackFunction (closures w ! k))]\<rparr>
      else w)"

definition clickOutside :: "node \<Rightarrow> callback \<Rightarrow> world \<Rightarrow> nat \<times> world" where
  "clickOutside el cb w =
     (let k = length (closures w)
      in (k, w\<lparr>closures := closures w @ [\<lparr>element = el, callbackFunction = cb\<rparr>],
                listeners := addEventListener k (listeners w)\<rparr>))"

definition update :: "nat \<Rightarrow> callback \<Rightarrow> world \<Rightarrow> world" where
  "update k newCallbackFunction w =
     (if k < length (closures w)
      then w\<lparr>closures := (closures w)[k := (closures w ! k)\<lparr>callbackFunction := newCallbackFunction\<rparr>]\<rparr>
      else w)"

definition destroy :: "nat \<Rightarrow> world \<Rightarrow> world" where
  "destroy k w = w\<lparr>listeners := removeEventListener k (listeners w)\<rparr>"

text \<open>
  A click travels from the root down to its target and, when it bubbles, back up through
  the ancestors of the target. The listeners of \<^verbatim>\<open>document.body\<close>, which are registered for
  the bubbling phase, run in the order of registration when the event reaches the body:
  its propagation has not been stopped before, the body contains the target, and the event
  bubbles or the body is itself the target. A click on a node outside the body (the root
  element, for instance), a click whose propagation is stopped on the way and a click
  inside the body that does not bubble do not reach them.
\<close>

definition reaches_body :: "world \<Rightarrow> MouseEvent \<Rightarrow> bool" where
  "reaches_body w event =
     (\<not> propagation_stopped event \<and> contains (body w) (target event) \<and>
      (bubbles event \<or> target event = body w))"

definition dispatch_click :: "MouseEvent \<Rightarrow> world \<Rightarrow> world" where
  "dispatch_click event w =
     (if reaches_body w event then fold (\<lambda>k. onClick k event) (listeners w) w else w)"

text \<open>A click of the user on a node: it bubbles, and no other listener stops it.\<close>

definition user_click :: "node \<Rightarrow> MouseEvent" where
  "user_click t = \<lparr>target = t, bubbles = True, propagation_stopped = False\<rparr>"

text \<open>
  What can happen to a page: a call of \<^verbatim>\<open>clickOutside\<close>, a call of the \<^verbatim>\<open>update\<close> or the
  \<^verbatim>\<open>destroy\<close> method of a returned object, and a click. A run is a sequence of these.
\<close>

datatype action = Create node callback | Update nat callback | Destroy nat | Click MouseEvent

fun exec :: "action \<Rightarrow> world \<Rightarrow> world" where
  "exec (Create el cb) w = snd (clickOutside el cb w)"
| "exec (Update k cb) w = update k cb w"
| "exec (Destroy k) w = destroy k w"
| "exec (Click t) w = dispatch_click t w"

definition run :: "action list \<Rightarrow> world \<Rightarrow> world" where
  "run as w = fold exec as w"

text \<open>
  A page starts without listeners and closures. In every state reached from there the
  registered listeners are distinct and each belongs to a closure that exists.
\<close>

definition init_world :: "node \<Rightarrow> world" where
  "init_world b = \<lparr>body = b, listeners = [], closures = [], calls = []\<rparr>"

definition wf_world :: "world \<Rightarrow> bool" where
  "wf_world w = (distinct (listeners w) \<and> list_all (\<lambda>k. k < length (closures w)) (listeners w))"

text \<open>
  The callbacks that closure \<open>k\<close> has called so far, the callback it holds, and the actions
  that replace the callback of closure \<open>k\<close>.
\<close>

definition invoked :: "nat \<Rightarrow> world \<Rightarrow> callback list" where
  "invoked k w = map snd (filter (\<lambda>e. fst e = k) (calls w))"



subsection \<open>Facts about the calendar functions\<close>

lemmas date_defs = toISOString_def newDate_def truncate_rat_def iso_string_def substring_def
     year_string_def pad_def padStart_def YearFromTime_def Day_def msPerDay_def DayFromYear_def MonthFromTime_def
     DateFromTime_def DayWithinYear_def InLeapYear_def DaysInYear_def HourFromTime_def MinFromTime_def SecFromTime_def msFromTime_def digit_char_def

lemma div_succ:
  fixes a k :: int
  assumes "0 < k"
  shows "(a + 1) div k = (if (a + 1) mod k = 0 then a div k + 1 else a div k)"
proof -
  define q r where "q = a div k" and "r = a mod k"
  have a: "a = k * q + r" by (simp add: q_def r_def)
  have r: "0 \<le> r" "r < k" using assms by (simp_all add: r_def)
  show ?thesis
  proof (cases "r + 1 = k")
    case True
    then have e: "a + 1 = k * (q + 1) + 0" using a by (simp add: algebra_simps)
    have "(a + 1) div k = q + 1" by (rule int_div_pos_eq [OF e]) (use assms in simp_all)
    moreover have "(a + 1) mod k = 0" by (rule int_mod_pos_eq [OF e]) (use assms in simp_all)
    ultimately show ?thesis by (simp add: q_def)
  next
    case False
    then have lt: "r + 1 < k" using r by simp
    have e: "a + 1 = k * q + (r + 1)" using a by simp
    have "(a + 1) div k = q" by (rule int_div_pos_eq [OF e]) (use r lt in simp_all)
    moreover have "(a + 1) mod k = r + 1" by (rule int_mod_pos_eq [OF e]) (use r lt in simp_all)
    ultimately show ?thesis using r by (simp add: q_def)
  qed
qed

lemma DayFromYear_Suc: "DayFromYear (y + 1) = DayFromYear y + DaysInYear y"
proof -
  have m4: "(y - 1968) mod 4 = y mod 4"
    using mod_mult_self2 [of y 4 "- 492"] by simp
  have m100: "(y - 1900) mod 100 = y mod 100"
    using mod_mult_self2 [of y 100 "- 19"] by simp
  have m400: "(y - 1600) mod 400 = y mod 400"
    using mod_mult_self2 [of y 400 "- 4"] by simp
  have a: "(y - 1968) div 4 = (if y mod 4 = 0 then (y - 1969) div 4 + 1 else (y - 1969) div 4)"
    using div_succ [of 4 "y - 1969"] m4 by simp
  have b: "(y - 1900) div 100 = (if y mod 100 = 0 then (y - 1901) div 100 + 1 else (y - 1901) div 100)"
    using div_succ [of 100 "y - 1901"] m100 by simp
  have c: "(y - 1600) div 400 = (if y mod 400 = 0 then (y - 1601) div 400 + 1 else (y - 1601) div 400)"
    using div_succ [of 400 "y - 1601"] m400 by simp
  have d: "y mod 100 = 0 \<Longrightarrow> y mod 4 = 0"
    using dvd_trans [of 4 100 y] by (simp add: mod_eq_0_iff_dvd)
  have e: "y mod 400 = 0 \<Longrightarrow> y mod 100 = 0"
    using dvd_trans [of 100 400 y] by (simp add: mod_eq_0_iff_dvd)
  show ?thesis
    using d e by (auto simp: DayFromYear_def DaysInYear_def a b c)
qed

lemma DaysInYear_bounds: "365 \<le> DaysInYear y" "DaysInYear y \<le> 366"
  by (simp_all add: DaysInYear_def)

lemma DayFromYear_mono: "y \<le> z \<Longrightarrow> DayFromYear y \<le> DayFromYear z"
proof (induction z rule: int_ge_induct)
  case base
  show ?case by simp
next
  case (step i)
  then show ?case using DayFromYear_Suc [of i] DaysInYear_bounds(1) [of i] by simp
qed

lemma DayFromYear_less_imp: "DayFromYear y < DayFromYear z \<Longrightarrow> y < z"
  using DayFromYear_mono [of z y] by (cases "y < z") simp_all

lemma DayFromYear_upper: "0 \<le> j \<Longrightarrow> DayFromYear (1970 + j) \<le> 366 * j"
proof (induction j rule: int_ge_induct)
  case base
  show ?case by (simp add: DayFromYear_def)
next
  case (step i)
  then show ?case
    using DayFromYear_Suc [of "1970 + i"] DaysInYear_bounds(2) [of "1970 + i"]
    by (simp add: add.assoc)
qed

lemma DayFromYear_lower: "j \<le> 0 \<Longrightarrow> DayFromYear (1970 + j) \<le> 365 * j"
proof (induction j rule: int_le_induct)
  case base
  show ?case by (simp add: DayFromYear_def)
next
  case (step i)
  then show ?case
    using DayFromYear_Suc [of "1970 + (i - 1)"] DaysInYear_bounds(1) [of "1970 + (i - 1)"]
    by (simp add: algebra_simps)
qed

lemma year_search_bounds:
  "DayFromYear y \<le> d \<Longrightarrow>
     DayFromYear (year_search d y) \<le> d \<and> d < DayFromYear (year_search d y + 1)"
proof (induction d y rule: year_search.induct)
  case (1 d y)
  show ?case
  proof (cases "DayFromYear (y + 1) \<le> d")
    case True
    with "1.IH" show ?thesis by (subst (1 2) year_search.simps) simp
  next
    case False
    with "1.prems" show ?thesis by (subst (1 2) year_search.simps) simp
  qed
qed

lemma year_start: "DayFromYear (1970 + (if 0 \<le> d then d div 366 else d div 365)) \<le> d"
proof (cases "0 \<le> d")
  case True
  then have "0 \<le> d div 366" by simp
  from DayFromYear_upper [OF this] have "DayFromYear (1970 + d div 366) \<le> 366 * (d div 366)" .
  also have "\<dots> \<le> d" by (simp add: mult.commute) 
  finally show ?thesis using True by simp
next
  case False
  then have "d div 365 \<le> 0" by (simp add: div_int_pos_iff not_le) 
  from DayFromYear_lower [OF this] have "DayFromYear (1970 + d div 365) \<le> 365 * (d div 365)" .
  also have "\<dots> \<le> d" by (simp add: mult.commute)
  finally show ?thesis using False by simp
qed

lemma YearFromTime_bounds:
  "DayFromYear (YearFromTime t) \<le> Day t" "Day t < DayFromYear (YearFromTime t + 1)"
proof -
  define y0 where "y0 = 1970 + (if 0 \<le> Day t then Day t div 366 else Day t div 365)"
  have y: "YearFromTime t = year_search (Day t) y0"
    by (simp only: YearFromTime_def Let_def y0_def)
  have "DayFromYear y0 \<le> Day t"
    unfolding y0_def by (rule year_start)
  from year_search_bounds [OF this]
  show "DayFromYear (YearFromTime t) \<le> Day t" "Day t < DayFromYear (YearFromTime t + 1)"
    by (simp_all only: y)
qed

lemma YearFromTime_unique:
  assumes "DayFromYear y \<le> Day t" "Day t < DayFromYear (y + 1)"
  shows "YearFromTime t = y"
proof -
  have "DayFromYear y < DayFromYear (YearFromTime t + 1)"
    using assms(1) YearFromTime_bounds(2) [of t] by (rule le_less_trans)
  then have "y < YearFromTime t + 1"
    by (rule DayFromYear_less_imp)
  moreover have "DayFromYear (YearFromTime t) < DayFromYear (y + 1)"
    using YearFromTime_bounds(1) [of t] assms(2) by (rule le_less_trans)
  then have "YearFromTime t < y + 1"
    by (rule DayFromYear_less_imp)
  ultimately show ?thesis by simp
qed

lemma DayWithinYear_bounds:
  "0 \<le> DayWithinYear t" "DayWithinYear t < 365 + InLeapYear t"
proof -
  show "0 \<le> DayWithinYear t"
    using YearFromTime_bounds(1) [of t] by (simp add: DayWithinYear_def)
  have "DaysInYear (YearFromTime t) = 365 + InLeapYear t"
    using DaysInYear_bounds [of "YearFromTime t"] by (simp add: InLeapYear_def DaysInYear_def)
  then show "DayWithinYear t < 365 + InLeapYear t"
    using YearFromTime_bounds(2) [of t] DayFromYear_Suc [of "YearFromTime t"]
    by (simp add: DayWithinYear_def)
qed

lemma InLeapYear_cases: "InLeapYear t = 0 \<or> InLeapYear t = 1"
  by (simp add: InLeapYear_def)


lemma MonthFromTime_bounds: "0 \<le> MonthFromTime t" "MonthFromTime t \<le> 11"
  by (simp_all add: MonthFromTime_def Let_def)

lemma DateFromTime_bounds: "1 \<le> DateFromTime t" "DateFromTime t \<le> 31"
  using DayWithinYear_bounds [of t] InLeapYear_cases [of t]
  by (auto simp: DateFromTime_def MonthFromTime_def Let_def split: if_splits)

text \<open>The calendar on four known dates, the last one in the first year with six digits.\<close>

lemma replicate_two: "replicate 2 x = [x, x]"
  by (simp add: numeral_2_eq_2)

lemma replicate_three: "replicate 3 x = [x, x, x]"
  by (simp add: numeral_3_eq_3)

lemma iso_string_examples:
  "iso_string 0 = ''1970-01-01T00:00:00.000Z''"
  "iso_string 951782400000 = ''2000-02-29T00:00:00.000Z''"
  "iso_string (- 1) = ''1969-12-31T23:59:59.999Z''"
  "iso_string 253402300800000 = ''+010000-01-01T00:00:00.000Z''"
  by (simp_all add: date_defs year_search.simps digits.simps replicate_two replicate_three)

subsection \<open>Facts about digits and the ISO string\<close>

lemma digit_char_0: "digit_char 0 = CHR ''0''"
  by (simp add: digit_char_def)

lemma digits_small: "n < 10 \<Longrightarrow> digits n = [digit_char n]"
  by (subst digits.simps) simp

lemma digits_two: "10 \<le> n \<Longrightarrow> n < 100 \<Longrightarrow> digits n = [digit_char (n div 10), digit_char (n mod 10)]"
  by (subst digits.simps) (simp add: digits_small)

lemma pad_two: "0 \<le> n \<Longrightarrow> n < 100 \<Longrightarrow> pad 2 n = two_digits (nat n)"
proof (cases "n < 10")
  case True
  assume "0 \<le> n"
  with True have "nat n < 10" by simp
  then show ?thesis
    by (simp add: pad_def padStart_def two_digits_def digit_char_0 add: digits_small)
next
  case False
  assume "n < 100"
  with False have "10 \<le> nat n" "nat n < 100" by simp_all
  then show ?thesis
    by (simp add: pad_def padStart_def two_digits_def digits_two)
qed

lemma length_digits_pos: "0 < length (digits n)"
  by (subst digits.simps) simp

lemma length_digits: "0 < k \<Longrightarrow> n < 10 ^ k \<Longrightarrow> length (digits n) \<le> k"
proof (induction k arbitrary: n)
  case 0
  then show ?case by simp
next
  case (Suc k)
  show ?case
  proof (cases "n < 10")
    case True
    then show ?thesis by (simp add: digits_small)
  next
    case False
    then have k: "0 < k" using Suc.prems by (cases k) simp_all
    have "n div 10 < 10 ^ k" using Suc.prems(2) by (simp add: less_mult_imp_div_less mult.commute)
    from Suc.IH [OF k this] False show ?thesis
      by (subst digits.simps) simp
  qed
qed

lemma length_pad: "0 < k \<Longrightarrow> 0 \<le> n \<Longrightarrow> n < 10 ^ k \<Longrightarrow> length (pad k n) = k"
proof -
  assume k: "0 < k" and n: "0 \<le> n" "n < 10 ^ k"
  have "nat n < 10 ^ k" using n by (simp add: nat_less_iff)
  from length_digits [OF k this] show ?thesis
    by (simp add: pad_def padStart_def)
qed

lemma length_two_digits: "length (two_digits n) = 2"
  by (simp add: two_digits_def)


lemma year_range:
  assumes "0 \<le> t" "t < 253402300800000"
  shows "1970 \<le> YearFromTime t" "YearFromTime t \<le> 9999"
proof -
  have d0: "0 \<le> Day t" using assms(1) by (simp add: Day_def msPerDay_def)
  have "t < 2932897 * 86400000" using assms(2) by simp
  then have d1: "Day t < 2932897" unfolding Day_def msPerDay_def
    by (simp add: div_less_iff_less_mult)
  have "DayFromYear 1970 \<le> Day t" using d0 by (simp add: DayFromYear_def)
  then have "DayFromYear 1970 < DayFromYear (YearFromTime t + 1)"
    using YearFromTime_bounds(2) [of t] by (rule le_less_trans)
  then have "1970 < YearFromTime t + 1" by (rule DayFromYear_less_imp)
  then show "1970 \<le> YearFromTime t" by simp
  have "Day t < DayFromYear 10000" using d1 by (simp add: DayFromYear_def)
  with YearFromTime_bounds(1) [of t] have "DayFromYear (YearFromTime t) < DayFromYear 10000"
    by (rule le_less_trans)
  then have "YearFromTime t < 10000" by (rule DayFromYear_less_imp)
  then show "YearFromTime t \<le> 9999" by simp
qed

lemma iso_string_split:
  "iso_string t = date_part t @ pad 2 (HourFromTime t) @ '':''
       @ pad 2 (MinFromTime t) @ '':'' @ pad 2 (SecFromTime t) @ ''.''
       @ pad 3 (msFromTime t) @ ''Z''"
  by (simp add: iso_string_def date_part_def)

lemma length_date_part:
  assumes "0 \<le> t" "t < 253402300800000"
  shows "length (date_part t) = 11"
proof -
  have y: "0 \<le> YearFromTime t" "YearFromTime t < 10 ^ 4"
    using year_range [OF assms] by simp_all
  have "length (year_string (YearFromTime t)) = 4"
    using y length_pad [of 4 "YearFromTime t"] by (simp add: year_string_def)
  moreover have "length (pad 2 (MonthFromTime t + 1)) = 2"
    using MonthFromTime_bounds [of t] by (intro length_pad) simp_all
  moreover have "length (pad 2 (DateFromTime t)) = 2"
    using DateFromTime_bounds [of t] by (intro length_pad) simp_all
  ultimately show ?thesis by (simp add: date_part_def)
qed

lemma time_fields:
  "pad 2 (HourFromTime t) = two_digits (nat (HourFromTime t))"
  "pad 2 (MinFromTime t) = two_digits (nat (MinFromTime t))"
  "pad 2 (SecFromTime t) = two_digits (nat (SecFromTime t))"
  by (rule pad_two; simp add: HourFromTime_def MinFromTime_def SecFromTime_def)+

lemma substring_hours:
  assumes "length p = 11"
  shows "substring 11 16 (p @ two_digits h @ '':'' @ two_digits m @ r) = two_digits h @ '':'' @ two_digits m"
  using assms by (simp add: substring_def two_digits_def)

lemma substring_minutes:
  assumes "length p = 11"
  shows "substring 14 19 (p @ two_digits h @ '':'' @ two_digits m @ '':'' @ two_digits s @ r)
     = two_digits m @ '':'' @ two_digits s"
  using assms by (simp add: substring_def two_digits_def)

lemma floor_div_rat:
  fixes x :: rat
  assumes "0 < n"
  shows "\<lfloor>x\<rfloor> div n = \<lfloor>x / of_int n\<rfloor>"
proof (rule sym, rule floor_unique)
  define q r where "q = \<lfloor>x\<rfloor> div n" and "r = \<lfloor>x\<rfloor> mod n"
  have f: "\<lfloor>x\<rfloor> = n * q + r" by (simp add: q_def r_def)
  have r0: "0 \<le> r" using assms by (simp add: r_def)
  have "r < n" using assms by (simp add: r_def)
  then have r1: "r + 1 \<le> n" by simp
  note r = r0 r1
  have n: "(0::rat) < of_int n" using assms by simp
  have "n * q \<le> \<lfloor>x\<rfloor>" using f r(1) by simp
  then have "of_int (n * q) \<le> (of_int \<lfloor>x\<rfloor> :: rat)" by (simp only: of_int_le_iff)
  also have "\<dots> \<le> x" by simp
  finally have "of_int q * of_int n \<le> x" by (simp add: mult.commute)
  then show "of_int (\<lfloor>x\<rfloor> div n) \<le> x / of_int n"
    using n by (simp add: q_def pos_le_divide_eq)
  have "x < of_int (\<lfloor>x\<rfloor> + 1)" by linarith
  also have "(of_int (\<lfloor>x\<rfloor> + 1) :: rat) \<le> of_int (n * (q + 1))"
  proof -
    have "\<lfloor>x\<rfloor> + 1 \<le> n * (q + 1)" using f r(2) by (simp add: algebra_simps)
    then show ?thesis by (simp only: of_int_le_iff)
  qed
  finally have "x < (of_int q + 1) * of_int n" by (simp add: mult.commute)
  then show "x / of_int n < of_int (\<lfloor>x\<rfloor> div n) + 1"
    using n by (simp add: q_def pos_divide_less_eq)
qed

lemma ms_div:
  fixes s :: rat
  shows "\<lfloor>s * 1000\<rfloor> div 1000 = \<lfloor>s\<rfloor>"
    "\<lfloor>s * 1000\<rfloor> div 60000 = \<lfloor>s / 60\<rfloor>"
    "\<lfloor>s * 1000\<rfloor> div 3600000 = \<lfloor>s / 3600\<rfloor>"
  using floor_div_rat [of 1000 "s * 1000"] floor_div_rat [of 60000 "s * 1000"]
    floor_div_rat [of 3600000 "s * 1000"] by simp_all


subsection \<open>Properties of formatTime\<close>

lemma iso_of_seconds:
  fixes s :: rat
  assumes "0 \<le> s" "s < 253402300800"
  shows "\<exists>p r. length p = 11 \<and>
     toISOString (newDate (Finite (s * 1000))) =
       Inr (p @ two_digits (nat (\<lfloor>s / 3600\<rfloor> mod 24)) @ '':''
              @ two_digits (nat (\<lfloor>s / 60\<rfloor> mod 60)) @ '':''
              @ two_digits (nat (\<lfloor>s\<rfloor> mod 60)) @ r)"
proof -
  define t where "t = \<lfloor>s * 1000\<rfloor>"
  have t0: "0 \<le> t" using assms(1) by (simp add: t_def)
  have "s * 1000 < 253402300800000" using assms(2) by simp
  then have t1: "t < 253402300800000" unfolding t_def by (simp add: floor_less_iff)
  have clip: "newDate (Finite (s * 1000)) = Some t"
    using assms by (simp add: newDate_def truncate_rat_def t_def abs_if)
  have h: "HourFromTime t = \<lfloor>s / 3600\<rfloor> mod 24"
    and m: "MinFromTime t = \<lfloor>s / 60\<rfloor> mod 60"
    and c: "SecFromTime t = \<lfloor>s\<rfloor> mod 60"
    by (simp_all add: HourFromTime_def MinFromTime_def SecFromTime_def t_def ms_div)
  have "toISOString (newDate (Finite (s * 1000))) =
      Inr (date_part t @ two_digits (nat (\<lfloor>s / 3600\<rfloor> mod 24)) @ '':''
              @ two_digits (nat (\<lfloor>s / 60\<rfloor> mod 60)) @ '':''
              @ two_digits (nat (\<lfloor>s\<rfloor> mod 60)) @ (''.'' @ pad 3 (msFromTime t) @ ''Z''))"
    by (simp only: clip toISOString_def option.case iso_string_split time_fields h m c append_assoc)
  with length_date_part [OF t0 t1] show ?thesis by blast
qed

lemma formatTime_big: "formatTime (Finite 8640000000001) = Inl RangeError"
  by (simp add: formatTime_def newDate_def toISOString_def)

text \<open>
  Every finite number of seconds whose time value is valid (at most \<open>8.64e12\<close> seconds
  in magnitude) gives a string.
\<close>

lemma formatTime_returns:
  assumes "\<bar>s\<bar> \<le> 8640000000000"
  shows "\<exists>str. formatTime (Finite s) = Inr str"
proof -
  have "\<bar>s * 1000\<bar> \<le> 8640000000000000" using assms by (simp add: abs_mult)
  then show ?thesis
    by (simp add: formatTime_def newDate_def toISOString_def)
qed

text \<open>
  Claim C3. For every number of seconds \<open>s\<close> with \<open>0 \<le> s < 3600\<close>, \<^verbatim>\<open>formatTime(s)\<close>
  is \<open>MM:SS\<close> with \<open>MM = floor(s / 60)\<close> and \<open>SS = s mod 60\<close>, each written with two
  digits. The seconds may have a fraction, which the clock does not show: the seconds field
  is \<open>floor(s) mod 60\<close>, which is \<open>s mod 60\<close> for a whole number of seconds.
\<close>

theorem formatTime_minutes_seconds:
  fixes s :: rat
  assumes "0 \<le> s" "s < 3600"
  shows "formatTime (Finite s) = Inr (clock \<lfloor>s / 60\<rfloor> (\<lfloor>s\<rfloor> mod 60))"
proof -
  from assms have "s < 253402300800" by simp
  from iso_of_seconds [OF assms(1) this] obtain p r where p: "length p = 11"
    and iso: "toISOString (newDate (Finite (s * 1000))) =
       Inr (p @ two_digits (nat (\<lfloor>s / 3600\<rfloor> mod 24)) @ '':''
              @ two_digits (nat (\<lfloor>s / 60\<rfloor> mod 60)) @ '':''
              @ two_digits (nat (\<lfloor>s\<rfloor> mod 60)) @ r)"
    by blast
  have "0 \<le> s / 60" "s / 60 < 60" using assms by simp_all
  then have "0 \<le> \<lfloor>s / 60\<rfloor>" "\<lfloor>s / 60\<rfloor> < 60" by (simp_all add: floor_less_iff)
  then have m: "\<lfloor>s / 60\<rfloor> mod 60 = \<lfloor>s / 60\<rfloor>" by simp
  have "\<not> num_ge (Finite s) (Finite (60 * 60))" using assms(2) by simp
  then have "formatTime (Finite s) = Inr (substring 14 19
       (p @ two_digits (nat (\<lfloor>s / 3600\<rfloor> mod 24)) @ '':''
              @ two_digits (nat (\<lfloor>s / 60\<rfloor> mod 60)) @ '':''
              @ two_digits (nat (\<lfloor>s\<rfloor> mod 60)) @ r))"
    by (simp add: formatTime_def iso)
  then show ?thesis
    by (simp only: substring_minutes [OF p] m clock_def)
qed


text \<open>The example of the claim, \<^verbatim>\<open>formatTime(75) = "01:15"\<close>, from the theorem.\<close>

theorem formatTime_minutes_seconds_witness:
  "formatTime (Finite 75) = Inr ''01:15''"
proof -
  have "\<lfloor>75 / 60 :: rat\<rfloor> = 1"
    using floor_divide_of_int_eq [of 75 60, where ?'a = rat] by simp
  then show ?thesis
    using formatTime_minutes_seconds [of 75]
    by (simp add: clock_def two_digits_def digit_char_def)
qed

text \<open>
  Claim C4, amended. For every number of seconds \<open>s\<close> with \<open>3600 \<le> s < 253402300800\<close>
  (the first second of the year 10000), \<^verbatim>\<open>formatTime(s)\<close> is \<open>HH:MM\<close>, the hours and
  minutes of the UTC clock at \<open>s\<close> seconds after the epoch, each written with two digits.
\<close>

theorem formatTime_hours_minutes:
  fixes s :: rat
  assumes "3600 \<le> s" "s < 253402300800"
  shows "formatTime (Finite s) = Inr (clock (\<lfloor>s / 3600\<rfloor> mod 24) (\<lfloor>s / 60\<rfloor> mod 60))"
proof -
  from assms have "0 \<le> s" by simp
  from iso_of_seconds [OF this assms(2)] obtain p r where p: "length p = 11"
    and iso: "toISOString (newDate (Finite (s * 1000))) =
       Inr (p @ two_digits (nat (\<lfloor>s / 3600\<rfloor> mod 24)) @ '':''
              @ two_digits (nat (\<lfloor>s / 60\<rfloor> mod 60)) @ '':''
              @ two_digits (nat (\<lfloor>s\<rfloor> mod 60)) @ r)"
    by blast
  have "num_ge (Finite s) (Finite (60 * 60))" using assms(1) by simp
  then have "formatTime (Finite s) = Inr (substring 11 16
       (p @ two_digits (nat (\<lfloor>s / 3600\<rfloor> mod 24)) @ '':''
              @ two_digits (nat (\<lfloor>s / 60\<rfloor> mod 60)) @ ('':''
              @ two_digits (nat (\<lfloor>s\<rfloor> mod 60)) @ r)))"
    by (simp add: formatTime_def iso)
  then show ?thesis
    by (simp only: substring_hours [OF p] clock_def)
qed


text \<open>The example of the claim, \<^verbatim>\<open>formatTime(3661) = "01:01"\<close>, from the theorem.\<close>

theorem formatTime_hours_minutes_witness:
  "formatTime (Finite 3661) = Inr ''01:01''"
proof -
  have "\<lfloor>3661 / 3600 :: rat\<rfloor> = 1"
    using floor_divide_of_int_eq [of 3661 3600, where ?'a = rat] by simp
  moreover have "\<lfloor>3661 / 60 :: rat\<rfloor> = 61"
    using floor_divide_of_int_eq [of 3661 60, where ?'a = rat] by simp
  ultimately show ?thesis
    using formatTime_hours_minutes [of 3661]
    by (simp add: clock_def two_digits_def digit_char_def)
qed

text \<open>
  Claim C4 as stated covers every \<open>s \<ge> 3600\<close>. From the year 10000 on the ISO string
  starts with a sign and a six-digit year, so the characters 11 to 15 are the day of the
  month, the letter T and the hours: at \<open>s = 253402300800\<close> the result is \<^verbatim>\<open>01T00\<close>, not
  the clock reading \<^verbatim>\<open>00:00\<close>.
\<close>

theorem formatTime_year_10000_counterexample:
  "(3600 :: rat) \<le> 253402300800 \<and>
   formatTime (Finite 253402300800) = Inr ''01T00'' \<and>
   formatTime (Finite 253402300800)
     \<noteq> Inr (clock (\<lfloor>253402300800 / 3600 :: rat\<rfloor> mod 24) (\<lfloor>253402300800 / 60 :: rat\<rfloor> mod 60))"
proof -
  have "\<lfloor>253402300800 / 3600 :: rat\<rfloor> = 70389528"
    using floor_divide_of_int_eq [of 253402300800 3600, where ?'a = rat] by simp
  moreover have "\<lfloor>253402300800 / 60 :: rat\<rfloor> = 4223371680"
    using floor_divide_of_int_eq [of 253402300800 60, where ?'a = rat] by simp
  ultimately show ?thesis
    by (simp add: formatTime_def date_defs year_search.simps digits.simps clock_def two_digits_def)
qed

text \<open>
  Claim C5 says that \<^verbatim>\<open>formatTime\<close> returns a string for every number. The guard of the
  function catches \<^verbatim>\<open>NaN\<close> only: \<^verbatim>\<open>Infinity\<close> is a number that is not \<^verbatim>\<open>NaN\<close>, the date
  made from it is invalid, and \<^verbatim>\<open>toISOString\<close> throws a \<^verbatim>\<open>RangeError\<close>.
\<close>

theorem formatTime_infinity_throws:
  "\<not> isNaN PosInfinity \<and> formatTime PosInfinity = Inl RangeError"
  by (simp add: formatTime_def newDate_def toISOString_def)

text \<open>
  Claim C6. For the input \<^verbatim>\<open>NaN\<close>, the only value of type number that is not a valid
  number, the result is exactly the string \<^verbatim>\<open>--:--\<close>.
\<close>

theorem formatTime_NaN:
  "formatTime NaN = Inr ''--:--''"
  by (simp add: formatTime_def)

subsection \<open>Properties of isElementVisible\<close>

text \<open>
  Claim C1. Without an element the result is false. For an element the result is the
  conjunction of exactly five predicates on what is read of it: it has an offset parent,
  its width and height are positive, its computed display is not \<^verbatim>\<open>none\<close>, its computed
  visibility is not \<^verbatim>\<open>hidden\<close> and its computed opacity is not the string \<^verbatim>\<open>0\<close>, and its
  rectangle lies entirely within the viewport. An element that sticks out of the viewport
  on any side is therefore not visible.
\<close>

theorem isElementVisible_five_predicates:
  "\<not> isElementVisible win None
   \<and> isElementVisible win (Some e) =
       (in_document_flow e \<and> has_size e \<and> is_displayed e \<and> is_visible_style e \<and> in_viewport win e)
   \<and> (sticks_out win e \<longrightarrow> \<not> isElementVisible win (Some e))"
  by (auto simp: isElementVisible_def Let_def in_document_flow_def has_size_def is_displayed_def
      is_visible_style_def in_viewport_def sticks_out_def viewportHeight_def viewportWidth_def
      js_or_def)

text \<open>
  The theorem at an element whose top edge is 10 above the viewport, which is not visible,
  and at the same element 10 below the top of the viewport, which is.
\<close>

theorem isElementVisible_five_predicates_witness:
  "sticks_out window0 (element0 (- 10) ''1'')
   \<and> \<not> isElementVisible window0 (Some (element0 (- 10) ''1''))
   \<and> isElementVisible window0 (Some (element0 10 ''1''))"
  using isElementVisible_five_predicates [of window0 "element0 (- 10) ''1''"]
    isElementVisible_five_predicates [of window0 "element0 10 ''1''"]
  by (simp add: sticks_out_def window0_def element0_def viewportHeight_def viewportWidth_def
      in_document_flow_def has_size_def is_displayed_def is_visible_style_def in_viewport_def)

text \<open>
  Claim C7. The computed opacity is compared as a string with \<^verbatim>\<open>0\<close>: an element whose
  computed opacity is the string \<^verbatim>\<open>0.0\<close> and which satisfies the four other predicates
  passes the style predicate and is reported visible.
\<close>

theorem opacity_compared_as_string:
  assumes "opacity (getComputedStyle e) = ''0.0''"
    and "in_document_flow e" and "has_size e" and "is_displayed e"
    and "visibility (getComputedStyle e) \<noteq> ''hidden''"
    and "in_viewport win e"
  shows "is_visible_style e \<and> isElementVisible win (Some e)"
  using assms
  by (auto simp: isElementVisible_def Let_def in_document_flow_def has_size_def is_displayed_def
      is_visible_style_def in_viewport_def viewportHeight_def viewportWidth_def js_or_def)

text \<open>
  The theorem at an element with opacity \<^verbatim>\<open>0.0\<close>; the same element with opacity \<^verbatim>\<open>0\<close> is
  not visible.
\<close>

theorem opacity_compared_as_string_witness:
  "opacity (getComputedStyle (element0 10 ''0.0'')) = ''0.0''
   \<and> isElementVisible window0 (Some (element0 10 ''0.0''))
   \<and> \<not> isElementVisible window0 (Some (element0 10 ''0''))"
proof -
  have "isElementVisible window0 (Some (element0 10 ''0.0''))"
    using opacity_compared_as_string [of "element0 10 ''0.0''" window0]
    by (simp add: window0_def element0_def viewportHeight_def viewportWidth_def
      in_document_flow_def has_size_def is_displayed_def in_viewport_def)
  moreover have "\<not> isElementVisible window0 (Some (element0 10 ''0''))"
    by (simp add: isElementVisible_def element0_def)
  ultimately show ?thesis by (simp add: element0_def)
qed


subsection \<open>Facts about clicks and runs\<close>

lemma contains_refl: "contains a a"
  by (simp add: contains_def)

lemma fold_onClick_frame:
  "body (fold (\<lambda>k. onClick k t) ls w) = body w"
  "listeners (fold (\<lambda>k. onClick k t) ls w) = listeners w"
  "closures (fold (\<lambda>k. onClick k t) ls w) = closures w"
  by (induction ls arbitrary: w; simp add: onClick_def)+

lemma fold_onClick_calls:
  "calls (fold (\<lambda>k. onClick k t) ls w) =
     calls w @ map (\<lambda>k. (k, callbackFunction (closures w ! k)))
       (filter (\<lambda>k. k < length (closures w) \<and> \<not> contains (element (closures w ! k)) (target t)) ls)"
proof (induction ls arbitrary: w)
  case Nil
  show ?case by simp
next
  case (Cons a ls)
  have c: "closures (onClick a t w) = closures w" by (simp add: onClick_def)
  show ?case
    by (simp add: Cons.IH c) (simp add: onClick_def)
qed


lemma dispatch_frame:
  "body (dispatch_click t w) = body w"
  "listeners (dispatch_click t w) = listeners w"
  "closures (dispatch_click t w) = closures w"
  by (simp_all add: dispatch_click_def fold_onClick_frame)


lemma dispatch_invoked_inside:
  assumes "contains (element (closures w ! k)) (target t)"
  shows "invoked k (dispatch_click t w) = invoked k w"
proof -
  let ?P = "\<lambda>j. j < length (closures w) \<and> \<not> contains (element (closures w ! j)) (target t)"
  have "filter (\<lambda>e. fst e = k) (map (\<lambda>j. (j, callbackFunction (closures w ! j))) (filter ?P (listeners w)))
      = map (\<lambda>j. (j, callbackFunction (closures w ! j))) (filter (\<lambda>j. j = k \<and> ?P j) (listeners w))"
    by (simp add: filter_map o_def conj_commute)
  also have "filter (\<lambda>j. j = k \<and> ?P j) (listeners w) = []"
    using assms by (simp add: filter_empty_conv)
  finally show ?thesis
    by (simp add: invoked_def dispatch_click_def fold_onClick_calls)
qed

lemma dispatch_invoked_unregistered:
  assumes "k \<notin> set (listeners w)"
  shows "invoked k (dispatch_click t w) = invoked k w"
proof -
  let ?P = "\<lambda>j. j < length (closures w) \<and> \<not> contains (element (closures w ! j)) (target t)"
  have "filter (\<lambda>e. fst e = k) (map (\<lambda>j. (j, callbackFunction (closures w ! j))) (filter ?P (listeners w)))
      = map (\<lambda>j. (j, callbackFunction (closures w ! j))) (filter (\<lambda>j. j = k \<and> ?P j) (listeners w))"
    by (simp add: filter_map o_def conj_commute)
  also have "filter (\<lambda>j. j = k \<and> ?P j) (listeners w) = []"
    using assms by (auto simp: filter_empty_conv)
  finally show ?thesis
    by (simp add: invoked_def dispatch_click_def fold_onClick_calls)
qed

lemma exec_body: "body (exec a w) = body w"
  by (cases a) (simp_all add: clickOutside_def Let_def update_def destroy_def dispatch_frame)

lemma exec_length: "length (closures w) \<le> length (closures (exec a w))"
  by (cases a) (simp_all add: clickOutside_def Let_def update_def destroy_def dispatch_frame)

lemma exec_element:
  "k < length (closures w) \<Longrightarrow> element (closures (exec a w) ! k) = element (closures w ! k)"
  by (cases a)
    (simp_all add: clickOutside_def Let_def update_def destroy_def dispatch_frame nth_append
       nth_list_update)


lemma exec_wf: "wf_world w \<Longrightarrow> wf_world (exec a w)"
proof (cases a)
  case (Create el cb)
  assume "wf_world w"
  then show ?thesis
    by (auto simp: Create wf_world_def clickOutside_def Let_def addEventListener_def
        list_all_iff less_Suc_eq)
next
  case (Update k cb)
  assume "wf_world w"
  then show ?thesis by (simp add: Update wf_world_def update_def)
next
  case (Destroy k)
  assume "wf_world w"
  then show ?thesis
    by (auto simp: Destroy wf_world_def destroy_def removeEventListener_def list_all_iff
        dest: notin_set_remove1)
next
  case (Click t)
  assume "wf_world w"
  then show ?thesis by (simp add: Click wf_world_def dispatch_frame)
qed


lemma exec_stays_unregistered:
  "k < length (closures w) \<Longrightarrow> k \<notin> set (listeners w) \<Longrightarrow> k \<notin> set (listeners (exec a w))"
  by (cases a)
    (auto simp: clickOutside_def Let_def update_def destroy_def dispatch_frame
       addEventListener_def removeEventListener_def dest: notin_set_remove1)

lemma exec_invoked_unregistered:
  "k \<notin> set (listeners w) \<Longrightarrow> invoked k (exec a w) = invoked k w"
  by (cases a)
    (simp_all add: dispatch_invoked_unregistered,
     simp_all add: invoked_def clickOutside_def Let_def update_def destroy_def)


lemma run_Nil: "run [] w = w"
  by (simp add: run_def)

lemma run_Cons: "run (a # as) w = run as (exec a w)"
  by (simp add: run_def)

lemma run_body: "body (run as w) = body w"
  by (induction as arbitrary: w) (simp_all add: run_Nil run_Cons exec_body)

lemma run_wf: "wf_world w \<Longrightarrow> wf_world (run as w)"
  by (induction as arbitrary: w) (simp_all add: run_Nil run_Cons exec_wf)

lemma reachable_wf: "wf_world (run as (init_world b))"
  by (rule run_wf) (simp add: wf_world_def init_world_def)

lemma run_length: "length (closures w) \<le> length (closures (run as w))"
proof (induction as arbitrary: w)
  case Nil
  show ?case by (simp add: run_Nil)
next
  case (Cons a as)
  from exec_length [of w a] Cons [of "exec a w"] show ?case
    by (simp add: run_Cons)
qed

lemma run_element:
  "k < length (closures w) \<Longrightarrow> element (closures (run as w) ! k) = element (closures w ! k)"
proof (induction as arbitrary: w)
  case Nil
  show ?case by (simp add: run_Nil)
next
  case (Cons a as)
  have "k < length (closures (exec a w))"
    using Cons.prems exec_length [of w a] by simp
  from Cons.IH [OF this] show ?case
    using Cons.prems by (simp add: run_Cons exec_element)
qed



lemma run_invoked_unregistered:
  "k < length (closures w) \<Longrightarrow> k \<notin> set (listeners w) \<Longrightarrow> invoked k (run as w) = invoked k w"
proof (induction as arbitrary: w)
  case Nil
  show ?case by (simp add: run_Nil)
next
  case (Cons a as)
  have l: "k < length (closures (exec a w))"
    using Cons.prems(1) exec_length [of w a] by simp
  have "k \<notin> set (listeners (exec a w))"
    using Cons.prems by (rule exec_stays_unregistered)
  from Cons.IH [OF l this] show ?case
    using Cons.prems by (simp add: run_Cons exec_invoked_unregistered)
qed


lemma clickOutside_facts:
  "fst (clickOutside el cb w0) < length (closures (snd (clickOutside el cb w0)))"
  "closures (snd (clickOutside el cb w0)) ! fst (clickOutside el cb w0)
     = \<lparr>element = el, callbackFunction = cb\<rparr>"
  "fst (clickOutside el cb w0) \<in> set (listeners (snd (clickOutside el cb w0)))"
  "body (snd (clickOutside el cb w0)) = body w0"
  "calls (snd (clickOutside el cb w0)) = calls w0"
  "wf_world w0 \<Longrightarrow> wf_world (snd (clickOutside el cb w0))"
  by (auto simp: clickOutside_def Let_def addEventListener_def wf_world_def
       list_all_iff less_Suc_eq)

subsection \<open>Properties of clickOutside\<close>




text \<open>
  Claim C10. A click whose target is the bound element itself never calls the callback,
  whatever has happened since the call of \<^verbatim>\<open>clickOutside\<close> and however the click
  propagates: a node contains itself.
\<close>

theorem click_on_element_itself:
  fixes el cb w0 acts
  defines "k \<equiv> fst (clickOutside el cb w0)"
    and "w \<equiv> run acts (snd (clickOutside el cb w0))"
  shows "invoked k (dispatch_click \<lparr>target = el, bubbles = b, propagation_stopped = s\<rparr> w)
     = invoked k w"
proof -
  let ?w1 = "snd (clickOutside el cb w0)"
  have k: "k < length (closures ?w1)" and c: "closures ?w1 ! k = \<lparr>element = el, callbackFunction = cb\<rparr>"
    using clickOutside_facts [where el = el and cb = cb and ?w0.0 = w0] by (simp_all add: k_def)
  have "element (closures w ! k) = el"
    unfolding w_def using run_element [OF k, of acts] c by simp
  then have "contains (element (closures w ! k))
      (target \<lparr>target = el, bubbles = b, propagation_stopped = s\<rparr>)"
    by (simp add: contains_refl)
  then show ?thesis by (rule dispatch_invoked_inside)
qed

text \<open>
  Claim C8. Once \<^verbatim>\<open>destroy\<close> has been called, nothing that happens afterwards (clicks,
  replacements of the callback, further calls of \<^verbatim>\<open>destroy\<close>, new binders) makes the
  binder call a callback again. A second \<^verbatim>\<open>destroy\<close> changes nothing, and \<^verbatim>\<open>destroy\<close> itself
  calls no callback. No operation of the model has an error outcome, as
  \<^verbatim>\<open>removeEventListener\<close> never throws.
\<close>

theorem destroy_stops_callbacks:
  fixes el cb w0 acts1 acts2
  defines "k \<equiv> fst (clickOutside el cb w0)"
    and "w \<equiv> run acts1 (snd (clickOutside el cb w0))"
  assumes "wf_world w0"
  shows "invoked k (run acts2 (destroy k w)) = invoked k w
     \<and> destroy k (destroy k w) = destroy k w
     \<and> calls (destroy k w) = calls w"
proof -
  let ?w1 = "snd (clickOutside el cb w0)"
  have k: "k < length (closures ?w1)" and wf1: "wf_world ?w1"
    using clickOutside_facts [where el = el and cb = cb and ?w0.0 = w0] assms(3) by (simp_all add: k_def)
  have wf: "wf_world w" unfolding w_def using wf1 by (rule run_wf)
  have len: "k < length (closures (destroy k w))"
    unfolding w_def using k run_length [of ?w1 acts1] by (simp add: destroy_def)
  have gone: "k \<notin> set (listeners (destroy k w))"
    using wf by (simp add: destroy_def removeEventListener_def wf_world_def)
  have "invoked k (run acts2 (destroy k w)) = invoked k (destroy k w)"
    using len gone by (rule run_invoked_unregistered)
  moreover have "invoked k (destroy k w) = invoked k w"
    by (simp add: invoked_def destroy_def)
  moreover have "destroy k (destroy k w) = destroy k w"
    using gone by (simp add: destroy_def removeEventListener_def remove1_idem)
  moreover have "calls (destroy k w) = calls w"
    by (simp add: destroy_def)
  ultimately show ?thesis by simp
qed

text \<open>
  The theorem on a page where one outside click before \<^verbatim>\<open>destroy\<close> called the callback 7:
  three outside clicks, a replacement and a second \<^verbatim>\<open>destroy\<close> later, the calls are still
  that one.
\<close>

theorem destroy_stops_callbacks_witness:
  "invoked 0 (run [Click (user_click (Node 0 [0, 1, 3])), Update 0 9,
        Click (user_click (Node 0 [0, 1, 3])), Destroy 0, Click (user_click (Node 0 [0, 1, 3]))]
      (destroy 0 (run [Click (user_click (Node 0 [0, 1, 3]))]
        (snd (clickOutside (Node 0 [0, 1, 0]) 7 (init_world (Node 0 [0, 1]))))))) = [7]"
proof -
  have wf: "wf_world (init_world (Node 0 [0, 1]))"
    by (simp add: wf_world_def init_world_def)
  have k: "fst (clickOutside (Node 0 [0, 1, 0]) 7 (init_world (Node 0 [0, 1]))) = 0"
    by (simp add: clickOutside_def init_world_def)
  have "invoked 0 (run [Click (user_click (Node 0 [0, 1, 3]))]
        (snd (clickOutside (Node 0 [0, 1, 0]) 7 (init_world (Node 0 [0, 1]))))) = [7]"
    by (simp add: run_def clickOutside_def init_world_def addEventListener_def
        dispatch_click_def onClick_def invoked_def contains_def reaches_body_def user_click_def)
  then show ?thesis
    using destroy_stops_callbacks [OF wf, of "Node 0 [0, 1, 0]" 7
        "[Click (user_click (Node 0 [0, 1, 3])), Update 0 9,
          Click (user_click (Node 0 [0, 1, 3])), Destroy 0, Click (user_click (Node 0 [0, 1, 3]))]"
        "[Click (user_click (Node 0 [0, 1, 3]))]"]
    unfolding k by simp
qed




end
